theory Spec2Isabelle
  imports Main
begin

section \<open>JavaScript values used by the release script\<close>

text \<open>
  The release script is the second document of \<^verbatim>\<open>src/types.d.ts\<close> (from line 64 on).
  Strings are lists of 8-bit characters, that is, the JavaScript strings whose code units
  are all below 256. A JavaScript Number that holds an integer is \<open>Num n\<close>, and \<open>NaN\<close> is
  the result of parsing a string without a leading digit; an integer is represented
  exactly by the script as long as its magnitude stays below \<open>2 ^ 53\<close>; the rounding of
  larger Numbers, and their exponent notation from \<open>10 ^ 21\<close> on, are not modelled. The values
  \<open>undefined\<close> and \<open>null\<close> of an optional string are \<open>None\<close>.
\<close>

datatype number = NaN | Num int

definition incr :: "number \<Rightarrow> number" where
  \<comment> \<open>\<^verbatim>\<open>x + 1\<close> and \<^verbatim>\<open>x++\<close> on a Number\<close>
  "incr x = (case x of NaN \<Rightarrow> NaN | Num n \<Rightarrow> Num (n + 1))"

definition digit_char :: "nat \<Rightarrow> char" where
  "digit_char d = ''0123456789'' ! d"

fun string_of_nat :: "nat \<Rightarrow> string" where
  "string_of_nat n =
     (if n < 10 then [digit_char n] else string_of_nat (n div 10) @ [digit_char (n mod 10)])"

declare string_of_nat.simps [simp del]

definition toString :: "number \<Rightarrow> string" where
  \<comment> \<open>the text a template literal \<^verbatim>\<open>${x}\<close> inserts for a Number\<close>
  "toString x =
     (case x of
        NaN \<Rightarrow> ''NaN''
      | Num n \<Rightarrow> (if n < 0 then ''-'' @ string_of_nat (nat (- n)) else string_of_nat (nat n)))"

definition is_digit :: "char \<Rightarrow> bool" where
  "is_digit c = (c \<in> set ''0123456789'')"

definition digit_val :: "char \<Rightarrow> int" where
  "digit_val c = of_char c - 48"

definition is_white :: "char \<Rightarrow> bool" where
  \<comment> \<open>the white space and line terminators below 256 that \<^verbatim>\<open>parseInt\<close> skips\<close>
  "is_white c = ((of_char c :: nat) \<in> {9, 10, 11, 12, 13, 32, 160})"

definition parseInt :: "string \<Rightarrow> number" where
  \<comment> \<open>\<^verbatim>\<open>parseInt(s, 10)\<close>: leading white space, an optional sign, the longest run of digits\<close>
  "parseInt s =
     (let t = dropWhile is_white s;
          neg = (case t of [] \<Rightarrow> False | c # _ \<Rightarrow> c = CHR ''-'');
          u = (case t of [] \<Rightarrow> [] | c # r \<Rightarrow> if c = CHR ''-'' \<or> c = CHR ''+'' then r else t);
          ds = takeWhile is_digit u;
          v = foldl (\<lambda>a c. 10 * a + digit_val c) 0 ds
      in if ds = [] then NaN else Num (if neg then - v else v))"

fun js_split :: "char \<Rightarrow> string \<Rightarrow> string list" where
  \<comment> \<open>\<^verbatim>\<open>s.split(c)\<close> for a separator of one character\<close>
  "js_split c [] = [[]]"
| "js_split c (x # xs) =
     (if x = c then [] # js_split c xs
      else (case js_split c xs of [] \<Rightarrow> [[x]] | p # ps \<Rightarrow> (x # p) # ps))"

fun js_join :: "string \<Rightarrow> string list \<Rightarrow> string" where
  \<comment> \<open>\<^verbatim>\<open>xs.join(sep)\<close>\<close>
  "js_join sep [] = []"
| "js_join sep [x] = x"
| "js_join sep (x # y # ys) = x @ sep @ js_join sep (y # ys)"

definition at :: "'a list \<Rightarrow> nat \<Rightarrow> 'a option" where
  \<comment> \<open>\<^verbatim>\<open>xs[i]\<close>: \<^verbatim>\<open>undefined\<close> out of range\<close>
  "at xs i = (if i < length xs then Some (xs ! i) else None)"

definition truthy :: "string option \<Rightarrow> bool" where
  \<comment> \<open>a string is truthy unless it is empty; \<^verbatim>\<open>undefined\<close> and \<^verbatim>\<open>null\<close> are falsy\<close>
  "truthy x = (case x of None \<Rightarrow> False | Some s \<Rightarrow> s \<noteq> [])"

definition or_else :: "string option \<Rightarrow> string \<Rightarrow> string" where
  \<comment> \<open>\<^verbatim>\<open>x || d\<close>\<close>
  "or_else x d = (case x of None \<Rightarrow> d | Some s \<Rightarrow> if s = [] then d else s)"

definition startsWith :: "string \<Rightarrow> string \<Rightarrow> bool" where
  "startsWith s p = (take (length p) s = p)"

section \<open>bumpVersion\<close>

datatype VersionType = Major | Minor | Patch | Rc

record version_parts =
  major :: number
  minor :: number
  patch :: number
  prerelease :: "string option"

definition parseVersion :: "string \<Rightarrow> version_parts" where
  \<comment> \<open>lines 228 to 232: the four local variables after parsing\<close>
  "parseVersion version =
     (let parts = js_split CHR ''.'' version
      in \<lparr> major = parseInt (or_else (at parts 0) ''0''),
           minor = parseInt (or_else (at parts 1) ''0''),
           patch = parseInt (or_else (Option.bind (at parts 2) (\<lambda>p. at (js_split CHR ''-'' p) 0)) ''0''),
           prerelease =
             (case at parts 2 of
                None \<Rightarrow> None
              | Some p \<Rightarrow>
                  if CHR ''-'' \<in> set p then Some (js_join ''-'' (drop 1 (js_split CHR ''-'' p)))
                  else None) \<rparr>)"

fun baseBump :: "VersionType \<Rightarrow> version_parts \<Rightarrow> version_parts" where
  \<comment> \<open>lines 238 to 255: the switch on the type; it has no case for \<^verbatim>\<open>'rc'\<close>\<close>
  "baseBump Major v = v\<lparr> major := incr (major v), minor := Num 0, patch := Num 0, prerelease := None \<rparr>"
| "baseBump Minor v = v\<lparr> minor := incr (minor v), patch := Num 0, prerelease := None \<rparr>"
| "baseBump Patch v = v\<lparr> patch := incr (patch v), prerelease := None \<rparr>"
| "baseBump Rc v = v"

definition addRc :: "version_parts \<Rightarrow> version_parts" where
  \<comment> \<open>lines 261 to 269\<close>
  "addRc v =
     (if truthy (prerelease v) \<and> startsWith (the (prerelease v)) ''rc.'' then
        (let rcNum = parseInt (or_else (at (js_split CHR ''.'' (the (prerelease v))) 1) ''0'')
         in v\<lparr> prerelease := Some (''rc.'' @ toString (incr rcNum)) \<rparr>)
      else v\<lparr> prerelease := Some ''rc.1'' \<rparr>)"

definition serialize :: "version_parts \<Rightarrow> string" where
  \<comment> \<open>lines 272 to 278\<close>
  "serialize v =
     (let newVersion = toString (major v) @ ''.'' @ toString (minor v) @ ''.'' @ toString (patch v)
      in if truthy (prerelease v) then newVersion @ ''-'' @ the (prerelease v) else newVersion)"

definition bumped :: "string \<Rightarrow> VersionType \<Rightarrow> bool \<Rightarrow> bool \<Rightarrow> version_parts" where
  \<comment> \<open>the local variables at line 271, before the new version string is built\<close>
  "bumped version type isRc incrementRcOnly =
     (let v0 = parseVersion version;
          v1 = (if \<not> incrementRcOnly then baseBump type v0 else v0)
      in if isRc then addRc v1 else v1)"

definition bumpVersion :: "string \<Rightarrow> VersionType \<Rightarrow> bool \<Rightarrow> bool \<Rightarrow> string" where
  "bumpVersion version type isRc incrementRcOnly = serialize (bumped version type isRc incrementRcOnly)"

section \<open>Prompt\<close>

text \<open>
  The class \<^verbatim>\<open>Prompt\<close> (lines 120 to 210). What it writes to the terminal is not part
  of the state; the state is the fields of the object, whether the keypress handler is
  subscribed (\<^verbatim>\<open>events('on')\<close> and \<^verbatim>\<open>events('off')\<close>) and the promise that the last
  \<^verbatim>\<open>select\<close> returned. The script has one \<^verbatim>\<open>select\<close> outstanding at a time, so the
  handler is subscribed at most once: \<^verbatim>\<open>select\<close> is called on a prompt that is not
  listening, and the properties below are stated for such a prompt.
\<close>

definition js_add :: "number \<Rightarrow> number \<Rightarrow> number" where
  "js_add x y = (case (x, y) of (Num a, Num b) \<Rightarrow> Num (a + b) | _ \<Rightarrow> NaN)"

definition js_rem :: "number \<Rightarrow> number \<Rightarrow> number" where
  \<comment> \<open>\<^verbatim>\<open>x % y\<close>: the sign of the dividend, \<open>NaN\<close> for a zero divisor\<close>
  "js_rem x y =
     (case (x, y) of
        (Num a, Num b) \<Rightarrow> if b = 0 then NaN else Num (sgn a * (\<bar>a\<bar> mod \<bar>b\<bar>))
      | _ \<Rightarrow> NaN)"

definition at_number :: "'a list \<Rightarrow> number \<Rightarrow> 'a option" where
  \<comment> \<open>\<^verbatim>\<open>xs[x]\<close> for a Number index\<close>
  "at_number xs x =
     (case x of NaN \<Rightarrow> None | Num i \<Rightarrow> if 0 \<le> i \<and> i < int (length xs) then Some (xs ! nat i) else None)"

record KeyPressEvent =
  name :: "string option"
  ctrl :: bool

datatype PromptOptions = Array "string list" | Object "(string \<times> string) list"
  \<comment> \<open>an object is the list of its own properties in enumeration order\<close>

datatype promise = Pending | Resolved string | Rejected "string option"
  \<comment> \<open>the rejection value is \<^verbatim>\<open>undefined\<close> (\<open>None\<close>) or the falsy key passed to \<^verbatim>\<open>exit\<close>\<close>

record Prompt =
  question :: "string option"
  options :: "string list"
  keys :: "string list"
  selected :: number
  listening :: bool
  settled :: promise

definition new_Prompt :: Prompt where
  "new_Prompt =
     \<lparr> question = None, options = [], keys = [], selected = Num 0, listening = False,
       settled = Pending \<rparr>"

definition render :: "int option \<Rightarrow> Prompt \<Rightarrow> Prompt" where
  \<comment> \<open>line 173; the offset \<open>None\<close> is the argument \<^verbatim>\<open>true\<close>\<close>
  "render offset p =
     (let len = Num (int (length (options p)));
          off = Num (case offset of None \<Rightarrow> 0 | Some k \<Rightarrow> k)
      in p\<lparr> selected := js_rem (js_add (js_add (selected p) off) len) len \<rparr>)"

definition exit :: "string option \<Rightarrow> Prompt \<Rightarrow> Prompt" where
  \<comment> \<open>lines 178 to 182; a promise that is settled stays as it is\<close>
  "exit key p =
     p\<lparr> listening := False,
        settled :=
          (if settled p = Pending
           then (if truthy key then Resolved (the key) else Rejected key)
           else settled p) \<rparr>"

definition handler :: "KeyPressEvent \<Rightarrow> Prompt \<Rightarrow> Prompt" where
  \<comment> \<open>lines 135 to 145\<close>
  "handler key p =
     (if name key = Some ''up'' then render (Some (- 1)) p
      else if name key = Some ''down'' then render (Some 1) p
      else if name key = Some ''return'' then exit (at_number (keys p) (selected p)) p
      else if name key = Some ''escape'' then exit None p
      else if name key = Some ''c'' then (if ctrl key then exit None p else p)
      else p)"

definition select :: "string option \<Rightarrow> PromptOptions \<Rightarrow> Prompt \<Rightarrow> Prompt" where
  \<comment> \<open>lines 196 to 209\<close>
  "select q opts p =
     render None
       (p\<lparr> question := q,
           options := (case opts of Array xs \<Rightarrow> xs | Object kvs \<Rightarrow> map snd kvs),
           keys := (case opts of Array xs \<Rightarrow> xs | Object kvs \<Rightarrow> map fst kvs),
           selected := Num 0,
           settled := Pending,
           listening := True \<rparr>)"

definition keypress :: "KeyPressEvent \<Rightarrow> Prompt \<Rightarrow> Prompt" where
  \<comment> \<open>a keypress event reaches the handler only while it is subscribed\<close>
  "keypress key p = (if listening p then handler key p else p)"

fun keypresses :: "KeyPressEvent list \<Rightarrow> Prompt \<Rightarrow> Prompt" where
  "keypresses [] p = p"
| "keypresses (k # ks) p = keypresses ks (keypress k p)"

definition key_up :: KeyPressEvent where "key_up = \<lparr> name = Some ''up'', ctrl = False \<rparr>"
definition key_down :: KeyPressEvent where "key_down = \<lparr> name = Some ''down'', ctrl = False \<rparr>"
definition key_return :: KeyPressEvent where "key_return = \<lparr> name = Some ''return'', ctrl = False \<rparr>"
definition key_escape :: KeyPressEvent where "key_escape = \<lparr> name = Some ''escape'', ctrl = False \<rparr>"
definition key_ctrl_c :: KeyPressEvent where "key_ctrl_c = \<lparr> name = Some ''c'', ctrl = True \<rparr>"

definition option_count :: "PromptOptions \<Rightarrow> nat" where
  "option_count opts = (case opts of Array xs \<Rightarrow> length xs | Object kvs \<Rightarrow> length kvs)"

definition selection_in_range :: "Prompt \<Rightarrow> bool" where
  \<comment> \<open>the selection is an index of the option list\<close>
  "selection_in_range p =
     (case selected p of NaN \<Rightarrow> False | Num i \<Rightarrow> 0 \<le> i \<and> i < int (length (options p)))"

section \<open>PackageManager.publish\<close>

text \<open>
  A JavaScript value, as far as the manifest and the thrown values need it. An object is
  the list of its own properties in insertion order. \<open>JTypeError\<close> is the error object that
  reading a property of \<^verbatim>\<open>undefined\<close> or \<^verbatim>\<open>null\<close> throws.
\<close>

datatype js =
    JUndefined
  | JNull
  | JBool bool
  | JNumber int
  | JString string
  | JArray "js list"
  | JObject "(string \<times> js) list"
  | JTypeError

type_synonym PackageJson = "(string \<times> js) list"

definition get_prop :: "PackageJson \<Rightarrow> string \<Rightarrow> js" where
  \<comment> \<open>\<^verbatim>\<open>obj.k\<close>\<close>
  "get_prop obj k = (case map_of obj k of None \<Rightarrow> JUndefined | Some v \<Rightarrow> v)"

fun set_prop :: "PackageJson \<Rightarrow> string \<Rightarrow> js \<Rightarrow> PackageJson" where
  \<comment> \<open>\<^verbatim>\<open>obj.k = v\<close>: an existing property keeps its place, a new one goes last\<close>
  "set_prop [] k v = [(k, v)]"
| "set_prop ((k', v') # obj) k v =
     (if k' = k then (k, v) # obj else (k', v') # set_prop obj k v)"

definition delete_prop :: "PackageJson \<Rightarrow> string \<Rightarrow> PackageJson" where
  \<comment> \<open>\<^verbatim>\<open>delete obj.k\<close>\<close>
  "delete_prop obj k = filter (\<lambda>kv. fst kv \<noteq> k) obj"

definition persisted :: "PackageJson \<Rightarrow> PackageJson" where
  \<comment> \<open>what \<^verbatim>\<open>JSON.stringify\<close> keeps of an object: a property that is \<^verbatim>\<open>undefined\<close> is left out\<close>
  "persisted obj = filter (\<lambda>kv. snd kv \<noteq> JUndefined) obj"

text \<open>
  The manifest file is represented by the object it parses to, and every call of
  \<^verbatim>\<open>savePackageJson\<close> is recorded in \<open>writes\<close>: a run with no write leaves the file as it
  was. Writing the file is taken to succeed, and the commands the script starts are taken
  not to touch the manifest.
\<close>

record store =
  packageJson :: PackageJson
  disk :: PackageJson
  writes :: "PackageJson list"

definition savePackageJson :: "store \<Rightarrow> store" where
  \<comment> \<open>lines 220 to 224, applied to the object in memory\<close>
  "savePackageJson s =
     s\<lparr> disk := persisted (packageJson s), writes := writes s @ [persisted (packageJson s)] \<rparr>"

text \<open>
  What the outside world does during one run: the exit code of each child process
  (\<open>None\<close> is \<^verbatim>\<open>null\<close>, the code of a child that a signal ended) and the keys pressed at
  the confirmation prompt.
\<close>

record world =
  clean_exit :: "int option"
  compile_exit :: "int option"
  confirm_keys :: "KeyPressEvent list"
  publish_exit :: "int option"
  commit_exit :: "int option"

definition DebugExec :: "int option \<Rightarrow> js option" where
  \<comment> \<open>line 117: the value the promise is rejected with, \<open>None\<close> when it is fulfilled\<close>
  "DebugExec code =
     (case code of
        None \<Rightarrow> Some JNull
      | Some c \<Rightarrow> if c = 0 then None else Some (JNumber c))"

definition build :: "world \<Rightarrow> js option" where
  \<comment> \<open>lines 281 to 294: \<^verbatim>\<open>clean\<close>, then the compiler\<close>
  "build w =
     (case DebugExec (clean_exit w) of
        Some e \<Rightarrow> Some e
      | None \<Rightarrow> DebugExec (compile_exit w))"

datatype completion = Returned | Thrown js | Suspended
  \<comment> \<open>\<open>Suspended\<close>: an awaited promise is never settled\<close>

definition confirmation :: "string \<Rightarrow> world \<Rightarrow> promise" where
  \<comment> \<open>lines 314 to 318\<close>
  "confirmation newVersion w =
     settled
       (keypresses (confirm_keys w)
          (select (Some (''Ready to publish version '' @ newVersion @ '':''))
             (Object [(''publish'', ''Publish '' @ newVersion), (''cancel'', ''Cancel'')])
             new_Prompt))"

definition try_block :: "world \<Rightarrow> string \<Rightarrow> store \<Rightarrow> completion \<times> store" where
  \<comment> \<open>lines 308 to 341; \<open>Returned\<close> stands for both ways of leaving the block without a throw\<close>
  "try_block w newVersion s =
     (case build w of
        Some e \<Rightarrow> (Thrown e, s)
      | None \<Rightarrow>
          (case confirmation newVersion w of
             Pending \<Rightarrow> (Suspended, s)
           | Rejected r \<Rightarrow> (Thrown (case r of None \<Rightarrow> JUndefined | Some k \<Rightarrow> JString k), s)
           | Resolved c \<Rightarrow>
               if c = ''cancel'' then (Returned, s)
               else
                 (let s1 = s\<lparr> packageJson := set_prop (packageJson s) ''version'' (JString newVersion) \<rparr>;
                      s2 = s1\<lparr> packageJson := delete_prop (packageJson s1) ''devDependencies'' \<rparr>;
                      s3 = savePackageJson s2
                  in case DebugExec (publish_exit w) of
                       Some e \<Rightarrow> (Thrown e, s3)
                     | None \<Rightarrow>
                         (case DebugExec (commit_exit w) of
                            Some e \<Rightarrow> (Thrown e, s3)
                          | None \<Rightarrow> (Returned, s3)))))"

definition catch_block :: "js \<Rightarrow> string \<Rightarrow> store \<Rightarrow> completion \<times> store" where
  \<comment> \<open>lines 342 to 354: \<^verbatim>\<open>err.message\<close> at line 345 throws when the caught value is
      \<^verbatim>\<open>undefined\<close> or \<^verbatim>\<open>null\<close>, and the rest of the block is skipped\<close>
  "catch_block error originalVersion s =
     (if error = JUndefined \<or> error = JNull then (Thrown JTypeError, s)
      else if get_prop (packageJson s) ''version'' \<noteq> JString originalVersion then
        (Thrown error,
         savePackageJson (s\<lparr> packageJson := set_prop (packageJson s) ''version'' (JString originalVersion) \<rparr>))
      else (Thrown error, s))"

definition finally_block :: "js \<Rightarrow> store \<Rightarrow> store" where
  \<comment> \<open>lines 355 to 364\<close>
  "finally_block originalDevDependencies s =
     (if get_prop (packageJson s) ''devDependencies'' \<noteq> originalDevDependencies then
        savePackageJson
          (s\<lparr> packageJson := set_prop (packageJson s) ''devDependencies'' originalDevDependencies \<rparr>)
      else s)"

definition publish :: "world \<Rightarrow> PackageJson \<Rightarrow> VersionType \<Rightarrow> bool \<Rightarrow> bool \<Rightarrow> completion \<times> store" where
  \<comment> \<open>lines 296 to 365, started with the manifest \<open>file\<close> on disk. A version that is not
      a string makes \<^verbatim>\<open>version.split\<close> at line 228 throw before the \<^verbatim>\<open>try\<close> is entered.\<close>
  "publish w file versionType isRc incrementRcOnly =
     (let s0 = \<lparr> packageJson = file, disk = file, writes = [] \<rparr>;
          originalDevDependencies = get_prop file ''devDependencies''
      in case get_prop file ''version'' of
           JString originalVersion \<Rightarrow>
             (let newVersion = bumpVersion originalVersion versionType isRc incrementRcOnly
              in case try_block w newVersion s0 of
                   (Suspended, s) \<Rightarrow> (Suspended, s)
                 | (Returned, s) \<Rightarrow> (Returned, finally_block originalDevDependencies s)
                 | (Thrown e, s) \<Rightarrow>
                     (case catch_block e originalVersion s of
                        (c, s') \<Rightarrow> (c, finally_block originalDevDependencies s')))
         | _ \<Rightarrow> (Thrown JTypeError, s0))"

text \<open>
  The manifest and the outside world of the scenarios: version \<^verbatim>\<open>1.0.0\<close>, the
  development dependencies \<^verbatim>\<open>{"x": "1.0.0"}\<close>, every command exits with code 0 and the
  user presses Enter at the confirmation prompt, on its first option \<^verbatim>\<open>publish\<close>.
\<close>

definition manifest :: PackageJson where
  "manifest =
     [(''name'', JString ''pkg''), (''version'', JString ''1.0.0''),
      (''devDependencies'', JObject [(''x'', JString ''1.0.0'')]),
      (''license'', JString ''MIT'')]"

definition all_succeed :: world where
  "all_succeed =
     \<lparr> clean_exit = Some 0, compile_exit = Some 0, confirm_keys = [key_return],
       publish_exit = Some 0, commit_exit = Some 0 \<rparr>"

section \<open>Properties of bumpVersion\<close>

lemma toString_zero: "toString (Num 0) = ''0''"
  by (simp add: toString_def string_of_nat.simps digit_char_def)

lemma toString_one: "toString (incr (Num 0)) = ''1''"
  by (simp add: incr_def toString_def string_of_nat.simps digit_char_def)

lemma parseInt_zero: "parseInt ''0'' = Num 0"
  by (simp add: parseInt_def is_white_def is_digit_def digit_val_def)

text \<open>
  Claim C1 says that \<^verbatim>\<open>bumpVersion("1.2.4-rc.1", 'patch', true, true)\<close> is
  \<^verbatim>\<open>"1.2.4-rc.2"\<close>. The code returns \<^verbatim>\<open>"1.2.4-rc.1"\<close>: the version is split at every
  dot first (line 228), so the third part is \<^verbatim>\<open>"4-rc"\<close>, the prerelease read from it is
  \<^verbatim>\<open>"rc"\<close> without its counter, the test \<^verbatim>\<open>startsWith('rc.')\<close> at line 261 fails and the
  prerelease is set to \<^verbatim>\<open>"rc.1"\<close>. The base components are carried through unchanged.
\<close>

theorem bumpVersion_rc_only_returns_same_counter:
  "bumpVersion ''1.2.4-rc.1'' Patch True True = ''1.2.4-rc.1''
   \<and> prerelease (parseVersion ''1.2.4-rc.1'') = Some ''rc''"
  by code_simp

text \<open>
  Claim C6: with the type \<^verbatim>\<open>'rc'\<close>, \<open>isRc\<close> false and \<open>incrementRcOnly\<close> false, the major,
  minor and patch numbers before the result is built are the parsed ones, for every
  version string, and the result is the parsed version written out again.
\<close>

theorem bumpVersion_rc_type_leaves_base:
  "major (bumped v Rc False False) = major (parseVersion v)
   \<and> minor (bumped v Rc False False) = minor (parseVersion v)
   \<and> patch (bumped v Rc False False) = patch (parseVersion v)
   \<and> bumpVersion v Rc False False = serialize (parseVersion v)"
  by (simp add: bumpVersion_def bumped_def Let_def)

text \<open>
  Claim C7: \<^verbatim>\<open>bumpVersion("2.0.0-rc.3", 'major', false, false)\<close> is \<^verbatim>\<open>"3.0.0"\<close>, and for
  every version a major bump without the prerelease flag returns the major number plus
  one followed by \<^verbatim>\<open>".0.0"\<close>, with no prerelease suffix.
\<close>

theorem bumpVersion_major_clears_prerelease:
  "bumpVersion ''2.0.0-rc.3'' Major False False = ''3.0.0''
   \<and> bumpVersion v Major False False = toString (incr (major (parseVersion v))) @ ''.0.0''"
proof
  show "bumpVersion ''2.0.0-rc.3'' Major False False = ''3.0.0''"
    by code_simp
  show "bumpVersion v Major False False = toString (incr (major (parseVersion v))) @ ''.0.0''"
    by (simp add: bumpVersion_def bumped_def serialize_def truthy_def toString_zero Let_def)
qed

text \<open>
  Claim C8: \<^verbatim>\<open>bumpVersion("1.2.3", 'patch', true, false)\<close> is \<^verbatim>\<open>"1.2.4-rc.1"\<close>, and for
  every version a patch bump with the prerelease flag returns the base with the patch
  number plus one and the suffix \<^verbatim>\<open>"-rc.1"\<close>.
\<close>

theorem bumpVersion_patch_with_rc:
  "bumpVersion ''1.2.3'' Patch True False = ''1.2.4-rc.1''
   \<and> bumpVersion v Patch True False =
       toString (major (parseVersion v)) @ ''.'' @ toString (minor (parseVersion v)) @ ''.'' @
       toString (incr (patch (parseVersion v))) @ ''-rc.1''"
proof
  show "bumpVersion ''1.2.3'' Patch True False = ''1.2.4-rc.1''"
    by code_simp
  show "bumpVersion v Patch True False =
       toString (major (parseVersion v)) @ ''.'' @ toString (minor (parseVersion v)) @ ''.'' @
       toString (incr (patch (parseVersion v))) @ ''-rc.1''"
    by (simp add: bumpVersion_def bumped_def serialize_def addRc_def truthy_def Let_def)
qed

text \<open>
  Claim C9: a version with fewer than three parts between dots has patch number 0, one
  with fewer than two has minor number 0, and the empty version has major number 0; a
  patch bump of a version with fewer than three parts ends in \<^verbatim>\<open>".1"\<close>. In particular
  \<^verbatim>\<open>bumpVersion("1.2", 'patch', false, false)\<close> is \<^verbatim>\<open>"1.2.1"\<close> and the empty version
  gives \<^verbatim>\<open>"0.0.1"\<close>.
\<close>

theorem parseVersion_missing_component_is_zero:
  "(length (js_split CHR ''.'' v) < 3 \<longrightarrow> patch (parseVersion v) = Num 0)
   \<and> (length (js_split CHR ''.'' v) < 2 \<longrightarrow> minor (parseVersion v) = Num 0)
   \<and> (v = [] \<longrightarrow> major (parseVersion v) = Num 0)
   \<and> (length (js_split CHR ''.'' v) < 3 \<longrightarrow>
        bumpVersion v Patch False False =
          toString (major (parseVersion v)) @ ''.'' @ toString (minor (parseVersion v)) @ ''.1'')
   \<and> bumpVersion ''1.2'' Patch False False = ''1.2.1''
   \<and> bumpVersion [] Patch False False = ''0.0.1''"
proof -
  have p: "length (js_split CHR ''.'' v) < 3 \<Longrightarrow> patch (parseVersion v) = Num 0"
    by (simp add: parseVersion_def Let_def at_def or_else_def parseInt_zero)
  have m: "length (js_split CHR ''.'' v) < 2 \<Longrightarrow> minor (parseVersion v) = Num 0"
    by (simp add: parseVersion_def Let_def at_def or_else_def parseInt_zero)
  have j: "v = [] \<Longrightarrow> major (parseVersion v) = Num 0"
    by (simp add: parseVersion_def Let_def at_def or_else_def parseInt_zero)
  have b: "length (js_split CHR ''.'' v) < 3 \<Longrightarrow>
      bumpVersion v Patch False False =
        toString (major (parseVersion v)) @ ''.'' @ toString (minor (parseVersion v)) @ ''.1''"
    using p by (simp add: bumpVersion_def bumped_def serialize_def truthy_def toString_one Let_def)
  have e1: "bumpVersion ''1.2'' Patch False False = ''1.2.1''"
    by code_simp
  have e2: "bumpVersion [] Patch False False = ''0.0.1''"
    by code_simp
  from p m j b e1 e2 show ?thesis by blast
qed

theorem parseVersion_missing_component_is_zero_witness:
  "length (js_split CHR ''.'' ''7.5'') < 3 \<and> patch (parseVersion ''7.5'') = Num 0
   \<and> bumpVersion ''7.5'' Patch False False = ''7.5.1''
   \<and> length (js_split CHR ''.'' ''7'') < 2 \<and> minor (parseVersion ''7'') = Num 0
   \<and> major (parseVersion []) = Num 0"
proof -
  have l1: "length (js_split CHR ''.'' ''7.5'') < 3"
    by simp
  have l2: "length (js_split CHR ''.'' ''7'') < 2"
    by simp
  have t1: "toString (major (parseVersion ''7.5'')) = ''7''"
    by code_simp
  have t2: "toString (minor (parseVersion ''7.5'')) = ''5''"
    by code_simp
  show ?thesis
    using l1 l2 t1 t2
      parseVersion_missing_component_is_zero [of "''7.5''"]
      parseVersion_missing_component_is_zero [of "''7''"]
      parseVersion_missing_component_is_zero [of "[]"]
    by simp
qed

section \<open>Properties of Prompt\<close>

lemma js_rem_nonneg:
  assumes "0 \<le> a" and "0 < n"
  shows "js_rem (Num a) (Num n) = Num (a mod n)"
proof (cases "a = 0")
  case True
  then show ?thesis using assms by (simp add: js_rem_def)
next
  case False
  with assms have "sgn a = 1" by simp
  with assms show ?thesis by (simp add: js_rem_def)
qed

lemma render_step:
  assumes "selected p = Num i" and "0 \<le> i" and "i < int (length (options p))"
    and "d = 1 \<or> d = - 1"
  shows "selected (render (Some d) p) = Num ((i + d) mod int (length (options p)))"
proof -
  let ?n = "int (length (options p))"
  have n: "0 < ?n" using assms by linarith
  have a: "0 \<le> i + d + ?n" using assms by auto
  have "selected (render (Some d) p) = js_rem (Num (i + d + ?n)) (Num ?n)"
    using assms(1) by (simp add: render_def js_add_def Let_def)
  also have "\<dots> = Num ((i + d + ?n) mod ?n)"
    using a n by (rule js_rem_nonneg)
  finally show ?thesis by simp
qed

lemma render_fields [simp]:
  "options (render off p) = options p" "keys (render off p) = keys p"
  "listening (render off p) = listening p" "settled (render off p) = settled p"
  by (simp_all add: render_def Let_def)

lemma exit_fields [simp]:
  "options (exit k p) = options p" "keys (exit k p) = keys p"
  "selected (exit k p) = selected p" "listening (exit k p) = False"
  by (simp_all add: exit_def)

lemma render_in_range:
  assumes "selection_in_range p" and "d = 1 \<or> d = - 1"
  shows "selection_in_range (render (Some d) p)"
proof -
  from assms(1) obtain i where i: "selected p = Num i" "0 \<le> i" "i < int (length (options p))"
    by (auto simp: selection_in_range_def split: number.splits)
  then have n: "0 < int (length (options p))" by linarith
  have "selected (render (Some d) p) = Num ((i + d) mod int (length (options p)))"
    using i assms(2) by (rule render_step)
  moreover have "0 \<le> (i + d) mod int (length (options p))"
    using n by (rule pos_mod_sign)
  moreover have "(i + d) mod int (length (options p)) < int (length (options p))"
    using n by (rule pos_mod_bound)
  ultimately show ?thesis by (simp add: selection_in_range_def)
qed

lemma exit_in_range: "selection_in_range (exit k p) = selection_in_range p"
  by (simp add: selection_in_range_def split: number.splits)

lemma handler_in_range: "selection_in_range p \<Longrightarrow> selection_in_range (handler k p)"
  by (simp add: handler_def render_in_range exit_in_range)

lemma keypress_in_range: "selection_in_range p \<Longrightarrow> selection_in_range (keypress k p)"
  by (simp add: keypress_def handler_in_range)

lemma keypresses_in_range: "selection_in_range p \<Longrightarrow> selection_in_range (keypresses ks p)"
  by (induction ks arbitrary: p) (simp_all add: keypress_in_range)

lemma select_fields:
  "options (select q opts p) = (case opts of Array xs \<Rightarrow> xs | Object kvs \<Rightarrow> map snd kvs)"
  "keys (select q opts p) = (case opts of Array xs \<Rightarrow> xs | Object kvs \<Rightarrow> map fst kvs)"
  "listening (select q opts p) = True" "settled (select q opts p) = Pending"
  by (simp_all add: select_def)

lemma length_select_options: "length (options (select q opts p)) = option_count opts"
  by (simp add: select_fields option_count_def split: PromptOptions.splits)

lemma select_selected:
  assumes "0 < option_count opts"
  shows "selected (select q opts p) = Num 0"
proof -
  let ?n = "int (option_count opts)"
  have "selected (select q opts p) = js_rem (Num (0 + ?n)) (Num ?n)"
    by (cases opts) (simp_all add: select_def render_def js_add_def Let_def option_count_def)
  also have "\<dots> = Num ((0 + ?n) mod ?n)"
    using assms by (intro js_rem_nonneg) simp_all
  finally show ?thesis by simp
qed

lemma select_in_range: "0 < option_count opts \<Longrightarrow> selection_in_range (select q opts p)"
  by (simp add: selection_in_range_def select_selected length_select_options)

lemma keypress_down:
  assumes "listening p" and "selected p = Num i" and "0 \<le> i" and "i < int (length (options p))"
  shows "selected (keypress key_down p) = Num ((i + 1) mod int (length (options p)))"
    and "listening (keypress key_down p)" and "options (keypress key_down p) = options p"
  using assms render_step [of p i 1]
  by (simp_all add: keypress_def handler_def key_down_def)

lemma downs:
  assumes "listening p" and "selected p = Num i" and "0 \<le> i" and "i < int (length (options p))"
  shows "selected (keypresses (replicate k key_down) p) = Num ((i + int k) mod int (length (options p)))"
  using assms
proof (induction k arbitrary: p i)
  case 0
  then show ?case by simp
next
  case (Suc k)
  let ?n = "int (length (options p))"
  let ?p = "keypress key_down p"
  have n: "0 < ?n" using Suc.prems by linarith
  have s: "selected ?p = Num ((i + 1) mod ?n)" and l: "listening ?p" and o: "options ?p = options p"
    using Suc.prems by (rule keypress_down)+
  have "selected (keypresses (replicate k key_down) ?p) = Num (((i + 1) mod ?n + int k) mod int (length (options ?p)))"
    using l s
  proof (rule Suc.IH)
    show "0 \<le> (i + 1) mod ?n" using n by (rule pos_mod_sign)
    show "(i + 1) mod ?n < int (length (options ?p))" using n by (simp add: o)
  qed
  also have "((i + 1) mod ?n + int k) mod int (length (options ?p)) = (i + 1 + int k) mod ?n"
    by (simp add: o mod_add_left_eq)
  also have "i + 1 + int k = i + int (Suc k)"
    by simp
  finally show ?case by simp
qed

text \<open>
  Claim C5: for a non-empty option list of length \<open>N\<close>, pressing down \<open>N\<close> times after
  \<^verbatim>\<open>select\<close> brings the selection back to index 0, and after any sequence of keypress
  events (up and down among them) the selection is an index below \<open>N\<close>.
\<close>

theorem select_wraps:
  assumes "0 < option_count opts" and "\<not> listening p"
  shows "selected (keypresses (replicate (option_count opts) key_down) (select q opts p)) = Num 0
     \<and> selection_in_range (keypresses ks (select q opts p))"
proof
  let ?s = "select q opts p"
  have "selected (keypresses (replicate (option_count opts) key_down) ?s)
      = Num ((0 + int (option_count opts)) mod int (length (options ?s)))"
  proof (rule downs)
    show "listening ?s" by (simp add: select_fields)
    show "selected ?s = Num 0" using assms(1) by (rule select_selected)
    show "(0::int) \<le> 0" by simp
    show "0 < int (length (options ?s))" using assms(1) by (simp add: length_select_options)
  qed
  then show "selected (keypresses (replicate (option_count opts) key_down) ?s) = Num 0"
    by (simp add: length_select_options)
  show "selection_in_range (keypresses ks ?s)"
    using assms(1) by (intro keypresses_in_range select_in_range)
qed

theorem select_wraps_witness:
  "0 < option_count (Array [''a'', ''b'', ''c'']) \<and> \<not> listening new_Prompt
   \<and> selected (keypresses [key_down, key_down, key_down] (select None (Array [''a'', ''b'', ''c'']) new_Prompt)) = Num 0
   \<and> selection_in_range (keypresses [key_up, key_up, key_down, key_up] (select None (Array [''a'', ''b'', ''c'']) new_Prompt))
   \<and> selected (keypresses [key_up] (select None (Array [''a'', ''b'', ''c'']) new_Prompt)) = Num 2"
proof -
  have h: "0 < option_count (Array [''a'', ''b'', ''c''])"
    by (simp add: option_count_def)
  have n: "option_count (Array [''a'', ''b'', ''c'']) = 3"
    by (simp add: option_count_def)
  have r: "replicate 3 key_down = [key_down, key_down, key_down]"
    by (simp add: numeral_3_eq_3)
  have u: "selected (keypresses [key_up] (select None (Array [''a'', ''b'', ''c'']) new_Prompt)) = Num 2"
    by code_simp
  have l: "\<not> listening new_Prompt"
    by (simp add: new_Prompt_def)
  show ?thesis
    using h l u select_wraps [OF h l, of None "[key_up, key_up, key_down, key_up]"]
    by (simp add: n r)
qed

lemma at_number_in_set: "at_number xs x = Some y \<Longrightarrow> y \<in> set xs"
  by (auto simp: at_number_def split: number.splits if_splits)

lemma truthy_Some: "truthy k \<Longrightarrow> \<exists>s. k = Some s \<and> s \<noteq> []"
  by (cases k) (simp_all add: truthy_def)

lemma exit_settled:
  assumes "settled p = Pending"
  shows "settled (exit k p) = (if truthy k then Resolved (the k) else Rejected k)"
  using assms by (simp add: exit_def)

lemma handler_keys [simp]: "keys (handler e p) = keys p"
  by (simp add: handler_def)

lemma keypress_keys [simp]: "keys (keypress e p) = keys p"
  by (simp add: keypress_def)

lemma keypresses_keys [simp]: "keys (keypresses es p) = keys p"
  by (induction es arbitrary: p) simp_all

lemma handler_settled:
  assumes "settled p = Pending"
  shows "(listening (handler e p) \<longrightarrow> settled (handler e p) = Pending)
     \<and> (\<forall>k. settled (handler e p) = Resolved k \<longrightarrow> k \<noteq> [] \<and> k \<in> set (keys p))"
proof -
  have ret: "\<forall>k. settled (exit (at_number (keys p) (selected p)) p) = Resolved k \<longrightarrow> k \<noteq> [] \<and> k \<in> set (keys p)"
  proof (intro allI impI)
    fix k
    assume r: "settled (exit (at_number (keys p) (selected p)) p) = Resolved k"
    with assms have t: "truthy (at_number (keys p) (selected p))"
      and k: "k = the (at_number (keys p) (selected p))"
      by (simp_all add: exit_settled split: if_splits)
    from truthy_Some [OF t] obtain s where s: "at_number (keys p) (selected p) = Some s" "s \<noteq> []"
      by blast
    from s(1) have "s \<in> set (keys p)"
      by (rule at_number_in_set)
    with s k show "k \<noteq> [] \<and> k \<in> set (keys p)"
      by simp
  qed
  have esc: "\<forall>k. settled (exit None p) \<noteq> Resolved k"
    using assms by (simp add: exit_settled truthy_def)
  show ?thesis
    using assms ret esc by (simp add: handler_def)
qed

lemma keypress_settled:
  assumes "listening p \<longrightarrow> settled p = Pending"
    and "\<forall>k. settled p = Resolved k \<longrightarrow> k \<noteq> [] \<and> k \<in> set (keys p)"
  shows "(listening (keypress e p) \<longrightarrow> settled (keypress e p) = Pending)
     \<and> (\<forall>k. settled (keypress e p) = Resolved k \<longrightarrow> k \<noteq> [] \<and> k \<in> set (keys p))"
proof (cases "listening p")
  case True
  with assms(1) have "settled p = Pending" by simp
  then show ?thesis using True handler_settled [of p e] by (simp add: keypress_def)
next
  case False
  then show ?thesis using assms by (simp add: keypress_def)
qed

lemma keypresses_settled:
  assumes "listening p \<longrightarrow> settled p = Pending"
    and "\<forall>k. settled p = Resolved k \<longrightarrow> k \<noteq> [] \<and> k \<in> set (keys p)"
  shows "(listening (keypresses es p) \<longrightarrow> settled (keypresses es p) = Pending)
     \<and> (\<forall>k. settled (keypresses es p) = Resolved k \<longrightarrow> k \<noteq> [] \<and> k \<in> set (keys p))"
  using assms
proof (induction es arbitrary: p)
  case Nil
  then show ?case by simp
next
  case (Cons e es)
  have "(listening (keypresses es (keypress e p)) \<longrightarrow> settled (keypresses es (keypress e p)) = Pending)
     \<and> (\<forall>k. settled (keypresses es (keypress e p)) = Resolved k \<longrightarrow> k \<noteq> [] \<and> k \<in> set (keys (keypress e p)))"
    using keypress_settled [OF Cons.prems, of e] by (intro Cons.IH) simp_all
  then show ?case by simp
qed

text \<open>
  Claim C10: the promise of \<^verbatim>\<open>select\<close> is resolved only with a key that is not the empty
  string (and that is one of the keys), and pressing Enter while the prompt is listening
  and the selected key is the empty string rejects the promise; the rejection value is
  that empty string.
\<close>

theorem select_empty_key_rejects:
  assumes "\<not> listening p"
  shows "(settled (keypresses es (select q opts p)) = Resolved k \<longrightarrow>
      k \<noteq> [] \<and> k \<in> set (keys (select q opts p)))
   \<and> (listening (keypresses es (select q opts p))
        \<and> at_number (keys (keypresses es (select q opts p))) (selected (keypresses es (select q opts p))) = Some []
      \<longrightarrow> settled (keypress key_return (keypresses es (select q opts p))) = Rejected (Some []))"
proof -
  let ?s = "keypresses es (select q opts p)"
  have inv: "(listening ?s \<longrightarrow> settled ?s = Pending)
     \<and> (\<forall>k. settled ?s = Resolved k \<longrightarrow> k \<noteq> [] \<and> k \<in> set (keys (select q opts p)))"
    by (rule keypresses_settled) (simp_all add: select_fields)
  have "settled (keypress key_return ?s) = Rejected (Some [])"
    if "listening ?s" and "at_number (keys ?s) (selected ?s) = Some []"
  proof -
    from inv that(1) have "settled ?s = Pending" by simp
    then have "settled (exit (Some []) ?s) = Rejected (Some [])"
      by (simp add: exit_settled truthy_def)
    with that show ?thesis
      by (simp add: keypress_def handler_def key_return_def)
  qed
  with inv show ?thesis by blast
qed

theorem select_empty_key_rejects_witness:
  "\<not> listening new_Prompt
   \<and> settled (keypresses [key_down, key_return] (select None (Array ['''', ''b'']) new_Prompt)) = Resolved ''b''
   \<and> ''b'' \<noteq> []
   \<and> listening (keypresses [key_down, key_up] (select None (Array ['''', ''b'']) new_Prompt))
   \<and> at_number (keys (keypresses [key_down, key_up] (select None (Array ['''', ''b'']) new_Prompt)))
        (selected (keypresses [key_down, key_up] (select None (Array ['''', ''b'']) new_Prompt))) = Some []
   \<and> settled (keypress key_return (keypresses [key_down, key_up] (select None (Array ['''', ''b'']) new_Prompt)))
        = Rejected (Some [])"
proof -
  have a: "settled (keypresses [key_down, key_return] (select None (Array ['''', ''b'']) new_Prompt)) = Resolved ''b''"
    by code_simp
  have b: "listening (keypresses [key_down, key_up] (select None (Array ['''', ''b'']) new_Prompt))"
    by code_simp
  have c: "at_number (keys (keypresses [key_down, key_up] (select None (Array ['''', ''b'']) new_Prompt)))
        (selected (keypresses [key_down, key_up] (select None (Array ['''', ''b'']) new_Prompt))) = Some []"
    by code_simp
  have l: "\<not> listening new_Prompt"
    by (simp add: new_Prompt_def)
  show ?thesis
    using a b c l
      select_empty_key_rejects [OF l, of "[key_down, key_return]" None "Array ['''', ''b'']" "''b''"]
      select_empty_key_rejects [OF l, of "[key_down, key_up]" None "Array ['''', ''b'']"]
    by simp
qed

section \<open>The release-candidate counter\<close>

text \<open>
  A prerelease read by \<open>parseVersion\<close> comes from one part of the split at the dots, so
  it holds no dot and never starts with \<^verbatim>\<open>"rc."\<close>.
\<close>

lemma js_split_not_Nil [simp]: "js_split c s \<noteq> []"
  by (induction s) (auto split: list.splits)

lemma js_split_no_separator: "x \<in> set (js_split c s) \<Longrightarrow> c \<notin> set x"
proof (induction s arbitrary: x)
  case Nil
  then show ?case by simp
next
  case (Cons a s)
  show ?case
  proof (cases "a = c")
    case True
    with Cons show ?thesis by auto
  next
    case False
    obtain p ps where ps: "js_split c s = p # ps"
      by (cases "js_split c s") simp_all
    with False Cons.prems have "x = a # p \<or> x \<in> set ps"
      by simp
    then show ?thesis
    proof
      assume "x = a # p"
      moreover have "c \<notin> set p" using ps by (intro Cons.IH) simp
      ultimately show ?thesis using False by auto
    next
      assume "x \<in> set ps"
      then show ?thesis using ps by (intro Cons.IH) simp
    qed
  qed
qed

lemma js_split_chars: "x \<in> set (js_split c s) \<Longrightarrow> set x \<subseteq> set s"
proof (induction s arbitrary: x)
  case Nil
  then show ?case by simp
next
  case (Cons a s)
  obtain p ps where ps: "js_split c s = p # ps"
    by (cases "js_split c s") simp_all
  from Cons.prems ps have "x = [] \<or> x = a # p \<or> x \<in> set (js_split c s)"
    by (auto split: if_splits)
  moreover have "set p \<subseteq> set s" using ps by (intro Cons.IH) simp
  ultimately show ?case using Cons.IH by auto
qed

lemma js_join_chars: "set (js_join sep xs) \<subseteq> set sep \<union> \<Union> (set ` set xs)"
  by (induction sep xs rule: js_join.induct) auto

lemma parseVersion_prerelease_no_dot:
  assumes "prerelease (parseVersion v) = Some p"
  shows "CHR ''.'' \<notin> set p"
proof -
  let ?parts = "js_split CHR ''.'' v"
  from assms obtain q where q: "at ?parts 2 = Some q"
    and p: "p = js_join ''-'' (drop 1 (js_split CHR ''-'' q))"
    by (auto simp: parseVersion_def Let_def split: option.splits if_splits)
  from q have "q \<in> set ?parts"
    by (auto simp: at_def split: if_splits)
  then have nd: "CHR ''.'' \<notin> set q"
    by (rule js_split_no_separator)
  have "\<Union> (set ` set (drop 1 (js_split CHR ''-'' q))) \<subseteq> set q"
    using js_split_chars [of _ "CHR ''-''" q] by (auto dest: in_set_dropD)
  with js_join_chars [of "''-''" "drop 1 (js_split CHR ''-'' q)"] have "set p \<subseteq> set ''-'' \<union> set q"
    unfolding p by blast
  with nd show ?thesis by auto
qed

lemma startsWith_rc_has_dot: "startsWith p ''rc.'' \<Longrightarrow> CHR ''.'' \<in> set p"
proof -
  assume "startsWith p ''rc.''"
  then have "take (length ''rc.'') p = ''rc.''"
    unfolding startsWith_def .
  then have "CHR ''.'' \<in> set (take (length ''rc.'') p)"
    by simp
  then show ?thesis
    by (rule in_set_takeD)
qed

lemma addRc_resets_counter:
  assumes "\<And>p. prerelease x = Some p \<Longrightarrow> CHR ''.'' \<notin> set p"
  shows "prerelease (addRc x) = Some ''rc.1''"
proof (cases "truthy (prerelease x) \<and> startsWith (the (prerelease x)) ''rc.''")
  case True
  then obtain p where "prerelease x = Some p" and "startsWith p ''rc.''"
    by (cases "prerelease x") (simp_all add: truthy_def)
  with assms startsWith_rc_has_dot show ?thesis by blast
next
  case False
  then have "addRc x = x\<lparr> prerelease := Some ''rc.1'' \<rparr>"
    unfolding addRc_def by (rule if_not_P)
  then show ?thesis by simp
qed

lemma baseBump_prerelease: "prerelease (baseBump t x) = (if t = Rc then prerelease x else None)"
  by (cases t) simp_all

text \<open>
  With \<open>isRc\<close> true the prerelease before the result is built is \<^verbatim>\<open>"rc.1"\<close> for every
  version, type and \<open>incrementRcOnly\<close>: the branch at lines 263 and 264 that adds one to
  the counter is never taken.
\<close>

lemma bumpVersion_counter_never_incremented:
  "prerelease (bumped v t True only) = Some ''rc.1''"
proof -
  have "prerelease (addRc (if \<not> only then baseBump t (parseVersion v) else parseVersion v)) = Some ''rc.1''"
    by (rule addRc_resets_counter)
      (auto simp: baseBump_prerelease dest: parseVersion_prerelease_no_dot split: if_splits)
  then show ?thesis by (simp add: bumped_def Let_def)
qed

section \<open>Properties of publish\<close>

lemma map_of_set_prop: "map_of (set_prop obj k v) k' = (if k' = k then Some v else map_of obj k')"
  by (induction obj k v rule: set_prop.induct) auto

lemma get_set_prop: "get_prop (set_prop obj k v) k' = (if k' = k then v else get_prop obj k')"
  by (simp add: get_prop_def map_of_set_prop)

lemma map_of_delete_prop: "map_of (delete_prop obj k) k' = (if k' = k then None else map_of obj k')"
  by (induction obj) (auto simp: delete_prop_def)

lemma get_delete_prop: "get_prop (delete_prop obj k) k' = (if k' = k then JUndefined else get_prop obj k')"
  by (simp add: get_prop_def map_of_delete_prop)

lemma map_of_persisted:
  "map_of obj k = Some v \<Longrightarrow> v \<noteq> JUndefined \<Longrightarrow> map_of (persisted obj) k = Some v"
  by (induction obj) (auto simp: persisted_def)

lemma map_of_persisted_None: "map_of obj k = None \<Longrightarrow> map_of (persisted obj) k = None"
  by (induction obj) (auto simp: persisted_def split: if_splits)

lemma get_persisted_defined:
  "get_prop obj k \<noteq> JUndefined \<Longrightarrow> get_prop (persisted obj) k = get_prop obj k"
  by (cases "map_of obj k") (simp_all add: get_prop_def map_of_persisted)

lemma get_persisted_absent:
  "map_of obj k = None \<Longrightarrow> get_prop (persisted obj) k = JUndefined"
  by (simp add: get_prop_def map_of_persisted_None)

lemma build_ok: "clean_exit w = Some 0 \<Longrightarrow> compile_exit w = Some 0 \<Longrightarrow> build w = None"
  by (simp add: build_def DebugExec_def)

text \<open>
  Claim C3: when the build, the confirmation, the publish command and the commit all
  succeed, \<^verbatim>\<open>publish\<close> returns, and the manifest on disk at the end holds the new version
  and the development dependencies of the manifest it started from (none when there were
  none).
\<close>

theorem publish_success_restores_devDependencies:
  assumes v: "get_prop file ''version'' = JString v"
    and b: "clean_exit w = Some 0" "compile_exit w = Some 0"
    and c: "confirmation (bumpVersion v t isRc only) w = Resolved ''publish''"
    and p: "publish_exit w = Some 0" "commit_exit w = Some 0"
  shows "fst (publish w file t isRc only) = Returned
     \<and> get_prop (disk (snd (publish w file t isRc only))) ''version'' = JString (bumpVersion v t isRc only)
     \<and> get_prop (disk (snd (publish w file t isRc only))) ''devDependencies'' = get_prop file ''devDependencies''"
proof -
  let ?nv = "bumpVersion v t isRc only"
  let ?m1 = "set_prop file ''version'' (JString ?nv)"
  let ?m2 = "delete_prop ?m1 ''devDependencies''"
  let ?s3 = "\<lparr> packageJson = ?m2, disk = persisted ?m2, writes = [persisted ?m2] \<rparr>"
  let ?d = "get_prop file ''devDependencies''"
  have t: "try_block w ?nv \<lparr> packageJson = file, disk = file, writes = [] \<rparr> = (Returned, ?s3)"
    using b c p by (simp add: try_block_def build_ok DebugExec_def savePackageJson_def)
  have r: "publish w file t isRc only = (Returned, finally_block ?d ?s3)"
    using v t by (simp add: publish_def)
  have ver2: "get_prop ?m2 ''version'' = JString ?nv"
    by (simp add: get_delete_prop get_set_prop)
  have dev2: "map_of ?m2 ''devDependencies'' = None"
    by (simp add: map_of_delete_prop)
  show ?thesis
  proof (cases "?d = JUndefined")
    case True
    then have "finally_block ?d ?s3 = ?s3"
      by (simp add: finally_block_def get_delete_prop)
    with r True ver2 dev2 show ?thesis
      by (simp add: get_persisted_defined get_persisted_absent)
  next
    case False
    let ?m3 = "set_prop ?m2 ''devDependencies'' ?d"
    have f: "disk (finally_block ?d ?s3) = persisted ?m3"
      using False by (simp add: finally_block_def get_delete_prop savePackageJson_def)
    have "get_prop ?m3 ''version'' = JString ?nv" and "get_prop ?m3 ''devDependencies'' = ?d"
      by (simp_all add: get_set_prop get_delete_prop)
    with False have "get_prop (persisted ?m3) ''version'' = JString ?nv"
      and "get_prop (persisted ?m3) ''devDependencies'' = ?d"
      by (simp_all add: get_persisted_defined)
    with r f show ?thesis by simp
  qed
qed

lemma confirm_return: "confirmation nv all_succeed = Resolved ''publish''"
  by (simp add: confirmation_def all_succeed_def key_return_def select_def render_def new_Prompt_def
      js_add_def js_rem_def keypress_def handler_def exit_def at_number_def truthy_def Let_def)

theorem publish_success_restores_devDependencies_witness:
  "fst (publish all_succeed manifest Minor False False) = Returned
   \<and> get_prop (disk (snd (publish all_succeed manifest Minor False False))) ''version'' = JString ''1.1.0''
   \<and> get_prop (disk (snd (publish all_succeed manifest Minor False False))) ''devDependencies''
       = JObject [(''x'', JString ''1.0.0'')]"
proof -
  have v: "get_prop manifest ''version'' = JString ''1.0.0''"
    by (simp add: get_prop_def manifest_def)
  have d: "get_prop manifest ''devDependencies'' = JObject [(''x'', JString ''1.0.0'')]"
    by (simp add: get_prop_def manifest_def)
  have n: "bumpVersion ''1.0.0'' Minor False False = ''1.1.0''"
    by code_simp
  have e: "clean_exit all_succeed = Some 0" "compile_exit all_succeed = Some 0"
    "publish_exit all_succeed = Some 0" "commit_exit all_succeed = Some 0"
    by (simp_all add: all_succeed_def)
  show ?thesis
    using publish_success_restores_devDependencies [OF v e(1) e(2) confirm_return e(3) e(4), of Minor False False]
    by (simp add: n d)
qed

lemma finally_block_restores:
  assumes "disk s = persisted (packageJson s)"
    and "map_of (packageJson s) ''devDependencies'' = None"
    and "get_prop (packageJson s) ''version'' = JString x"
  shows "get_prop (disk (finally_block d s)) ''version'' = JString x
     \<and> get_prop (disk (finally_block d s)) ''devDependencies'' = d"
proof (cases "d = JUndefined")
  case True
  with assms(2) have "finally_block d s = s"
    by (simp add: finally_block_def get_prop_def)
  with assms True show ?thesis
    by (simp add: get_persisted_defined get_persisted_absent)
next
  case False
  let ?m = "set_prop (packageJson s) ''devDependencies'' d"
  have "disk (finally_block d s) = persisted ?m"
    using False assms(2) by (simp add: finally_block_def get_prop_def savePackageJson_def)
  moreover have "get_prop (persisted ?m) ''version'' = JString x"
    using assms(3) by (simp add: get_persisted_defined get_set_prop)
  moreover have "get_prop (persisted ?m) ''devDependencies'' = d"
    using False by (simp add: get_persisted_defined get_set_prop)
  ultimately show ?thesis by simp
qed

lemma catch_block_reverts:
  assumes "e \<noteq> JUndefined" and "e \<noteq> JNull"
    and "disk s = persisted (packageJson s)"
    and "map_of (packageJson s) ''devDependencies'' = None"
    and "get_prop (packageJson s) ''version'' = JString y"
  shows "fst (catch_block e x s) = Thrown e
     \<and> disk (snd (catch_block e x s)) = persisted (packageJson (snd (catch_block e x s)))
     \<and> map_of (packageJson (snd (catch_block e x s))) ''devDependencies'' = None
     \<and> get_prop (packageJson (snd (catch_block e x s))) ''version'' = JString x"
  using assms
  by (simp add: catch_block_def savePackageJson_def get_set_prop map_of_set_prop)

text \<open>
  A publish or commit command that exits with a code other than 0, after the manifest was
  rewritten: the version on disk at the end is the original one, the development
  dependencies on disk are the original ones, and the exit code is thrown to the caller.
\<close>

theorem publish_failure_rolls_back:
  assumes v: "get_prop file ''version'' = JString v"
    and b: "clean_exit w = Some 0" "compile_exit w = Some 0"
    and c: "confirmation (bumpVersion v t isRc only) w = Resolved ''publish''"
    and f: "publish_exit w = Some n \<and> n \<noteq> 0 \<or> publish_exit w = Some 0 \<and> commit_exit w = Some n \<and> n \<noteq> 0"
  shows "fst (publish w file t isRc only) = Thrown (JNumber n)
     \<and> get_prop (disk (snd (publish w file t isRc only))) ''version'' = JString v
     \<and> get_prop (disk (snd (publish w file t isRc only))) ''devDependencies'' = get_prop file ''devDependencies''"
proof -
  let ?nv = "bumpVersion v t isRc only"
  let ?m2 = "delete_prop (set_prop file ''version'' (JString ?nv)) ''devDependencies''"
  let ?s3 = "\<lparr> packageJson = ?m2, disk = persisted ?m2, writes = [persisted ?m2] \<rparr>"
  let ?d = "get_prop file ''devDependencies''"
  let ?c = "catch_block (JNumber n) v ?s3"
  have t: "try_block w ?nv \<lparr> packageJson = file, disk = file, writes = [] \<rparr> = (Thrown (JNumber n), ?s3)"
    using b c f by (auto simp: try_block_def build_ok DebugExec_def savePackageJson_def)
  have r: "publish w file t isRc only = (fst ?c, finally_block ?d (snd ?c))"
    using v t by (simp add: publish_def split: prod.splits)
  have k: "fst ?c = Thrown (JNumber n)
     \<and> disk (snd ?c) = persisted (packageJson (snd ?c))
     \<and> map_of (packageJson (snd ?c)) ''devDependencies'' = None
     \<and> get_prop (packageJson (snd ?c)) ''version'' = JString v"
    by (rule catch_block_reverts [where y = ?nv]) (simp_all add: get_delete_prop get_set_prop map_of_delete_prop)
  then have "get_prop (disk (finally_block ?d (snd ?c))) ''version'' = JString v
     \<and> get_prop (disk (finally_block ?d (snd ?c))) ''devDependencies'' = ?d"
    by (intro finally_block_restores) simp_all
  with r k show ?thesis by simp
qed

lemma confirm_cancel: "confirmation nv (all_succeed\<lparr> confirm_keys := [key_down, key_return] \<rparr>) = Resolved ''cancel''"
  by (simp add: confirmation_def all_succeed_def key_return_def key_down_def select_def render_def new_Prompt_def
      js_add_def js_rem_def keypress_def handler_def exit_def at_number_def truthy_def Let_def)

lemma confirm_escape: "confirmation nv (all_succeed\<lparr> confirm_keys := [key_escape] \<rparr>) = Rejected None"
  by (simp add: confirmation_def all_succeed_def key_escape_def select_def render_def new_Prompt_def
      js_add_def js_rem_def keypress_def handler_def exit_def at_number_def truthy_def Let_def)

theorem publish_failure_rolls_back_witness:
  "fst (publish (all_succeed\<lparr> publish_exit := Some 1 \<rparr>) manifest Minor False False) = Thrown (JNumber 1)
   \<and> get_prop (disk (snd (publish (all_succeed\<lparr> publish_exit := Some 1 \<rparr>) manifest Minor False False))) ''version''
       = JString ''1.0.0''
   \<and> get_prop (disk (snd (publish (all_succeed\<lparr> publish_exit := Some 1 \<rparr>) manifest Minor False False))) ''devDependencies''
       = JObject [(''x'', JString ''1.0.0'')]"
proof -
  let ?w = "all_succeed\<lparr> publish_exit := Some 1 \<rparr>"
  have v: "get_prop manifest ''version'' = JString ''1.0.0''"
    by (simp add: get_prop_def manifest_def)
  have d: "get_prop manifest ''devDependencies'' = JObject [(''x'', JString ''1.0.0'')]"
    by (simp add: get_prop_def manifest_def)
  have e: "clean_exit ?w = Some 0" "compile_exit ?w = Some 0"
    by (simp_all add: all_succeed_def)
  have c: "confirmation (bumpVersion ''1.0.0'' Minor False False) ?w = Resolved ''publish''"
    using confirm_return [of "bumpVersion ''1.0.0'' Minor False False"]
    by (simp add: confirmation_def all_succeed_def)
  have f: "publish_exit ?w = Some 1 \<and> (1::int) \<noteq> 0
     \<or> publish_exit ?w = Some 0 \<and> commit_exit ?w = Some 1 \<and> (1::int) \<noteq> 0"
    by simp
  show ?thesis
    using publish_failure_rolls_back [OF v e c f] by (simp add: d)
qed

text \<open>
  Claim C2 says that after every failure that follows the rewrite of the manifest the
  version on disk is the original one. A publish command that a signal ends has the exit
  code \<^verbatim>\<open>null\<close>, and \<^verbatim>\<open>DebugExec\<close> rejects with it (line 117). The \<^verbatim>\<open>catch\<close> block reads
  \<^verbatim>\<open>err.message\<close> of it at line 345, which throws a TypeError before the rollback at
  lines 347 to 352; the \<^verbatim>\<open>finally\<close> block then writes the manifest with the development
  dependencies and the new version \<^verbatim>\<open>1.1.0\<close>, and the caller gets the TypeError.
\<close>

theorem publish_signal_skips_rollback:
  "fst (publish (all_succeed\<lparr> publish_exit := None \<rparr>) manifest Minor False False) = Thrown JTypeError
   \<and> get_prop manifest ''version'' = JString ''1.0.0''
   \<and> get_prop (disk (snd (publish (all_succeed\<lparr> publish_exit := None \<rparr>) manifest Minor False False))) ''version''
       = JString ''1.1.0''"
  by code_simp

text \<open>
  Claim C4 says that a rejected confirmation prompt ends the run quietly. Escape rejects
  the promise with \<^verbatim>\<open>undefined\<close>; the \<^verbatim>\<open>catch\<close> block reads \<^verbatim>\<open>err.message\<close> of it at line
  345 and throws a TypeError, which \<^verbatim>\<open>publish\<close> passes to its caller. Nothing is written
  and the manifest on disk is the one the run started with.
\<close>

theorem publish_escape_throws:
  "publish (all_succeed\<lparr> confirm_keys := [key_escape] \<rparr>) manifest Minor False False
     = (Thrown JTypeError, \<lparr> packageJson = manifest, disk = manifest, writes = [] \<rparr>)"
  by code_simp

text \<open>
  Choosing the option \<^verbatim>\<open>cancel\<close> at the confirmation prompt: \<^verbatim>\<open>publish\<close> returns, nothing
  is written and the manifest on disk is the one the run started with.
\<close>

theorem publish_cancel_option:
  assumes v: "get_prop file ''version'' = JString v"
    and b: "clean_exit w = Some 0" "compile_exit w = Some 0"
    and c: "confirmation (bumpVersion v t isRc only) w = Resolved ''cancel''"
  shows "publish w file t isRc only = (Returned, \<lparr> packageJson = file, disk = file, writes = [] \<rparr>)"
proof -
  have "try_block w (bumpVersion v t isRc only) \<lparr> packageJson = file, disk = file, writes = [] \<rparr>
      = (Returned, \<lparr> packageJson = file, disk = file, writes = [] \<rparr>)"
    using b c by (simp add: try_block_def build_ok)
  with v show ?thesis
    by (simp add: publish_def finally_block_def)
qed

text \<open>
  A confirmation prompt rejected with \<^verbatim>\<open>undefined\<close>, for every manifest and bump:
  \<^verbatim>\<open>publish\<close> throws a TypeError, nothing is written and the manifest on disk is the one
  the run started with.
\<close>

theorem publish_prompt_rejected:
  assumes v: "get_prop file ''version'' = JString v"
    and b: "clean_exit w = Some 0" "compile_exit w = Some 0"
    and c: "confirmation (bumpVersion v t isRc only) w = Rejected None"
  shows "publish w file t isRc only = (Thrown JTypeError, \<lparr> packageJson = file, disk = file, writes = [] \<rparr>)"
proof -
  have "try_block w (bumpVersion v t isRc only) \<lparr> packageJson = file, disk = file, writes = [] \<rparr>
      = (Thrown JUndefined, \<lparr> packageJson = file, disk = file, writes = [] \<rparr>)"
    using b c by (simp add: try_block_def build_ok)
  with v show ?thesis
    by (simp add: publish_def catch_block_def finally_block_def)
qed

lemma publish_cancel_option_example:
  "publish (all_succeed\<lparr> confirm_keys := [key_down, key_return] \<rparr>) manifest Minor False False
     = (Returned, \<lparr> packageJson = manifest, disk = manifest, writes = [] \<rparr>)"
proof (rule publish_cancel_option)
  show "get_prop manifest ''version'' = JString ''1.0.0''"
    by (simp add: get_prop_def manifest_def)
  show "confirmation (bumpVersion ''1.0.0'' Minor False False)
      (all_succeed\<lparr> confirm_keys := [key_down, key_return] \<rparr>) = Resolved ''cancel''"
    by (rule confirm_cancel)
qed (simp_all add: all_succeed_def)

lemma publish_prompt_rejected_example:
  "publish (all_succeed\<lparr> confirm_keys := [key_escape] \<rparr>) manifest Patch True False
     = (Thrown JTypeError, \<lparr> packageJson = manifest, disk = manifest, writes = [] \<rparr>)"
proof (rule publish_prompt_rejected)
  show "get_prop manifest ''version'' = JString ''1.0.0''"
    by (simp add: get_prop_def manifest_def)
  show "confirmation (bumpVersion ''1.0.0'' Patch True False)
      (all_succeed\<lparr> confirm_keys := [key_escape] \<rparr>) = Rejected None"
    by (rule confirm_escape)
qed (simp_all add: all_succeed_def)

end
